theory Spec2Isabelle
  imports Main
begin

section \<open>Python values, strings and dictionaries\<close>

text \<open>
  The module handles two kinds of values: strings and \<^verbatim>\<open>None\<close> (an omitted module
  parameter is \<^verbatim>\<open>None\<close>). A value is truthy when it is a non-empty string; \<^verbatim>\<open>a or b\<close>
  is \<open>a\<close> when \<open>a\<close> is truthy and \<open>b\<close> otherwise.
\<close>

datatype pyval = PyNone | PyStr string

fun truthy :: "pyval \<Rightarrow> bool" where
  "truthy PyNone = False"
| "truthy (PyStr s) = (s \<noteq> [])"

definition por :: "pyval \<Rightarrow> pyval \<Rightarrow> pyval" where
  "por a b = (if truthy a then a else b)"

text \<open>\<^verbatim>\<open>(v or "")\<close>: the string of a value, the empty string for a falsy one.\<close>

fun or_empty :: "pyval \<Rightarrow> string" where
  "or_empty PyNone = []"
| "or_empty (PyStr s) = s"

text \<open>\<^verbatim>\<open>s.rstrip("/")\<close> removes every trailing slash.\<close>

definition rstrip :: "char \<Rightarrow> string \<Rightarrow> string" where
  "rstrip c s = rev (dropWhile (\<lambda>x. x = c) (rev s))"

text \<open>\<^verbatim>\<open>s.endswith(suf)\<close>.\<close>

definition endswith :: "string \<Rightarrow> string \<Rightarrow> bool" where
  "endswith s suf = (length suf \<le> length s \<and> drop (length s - length suf) s = suf)"

text \<open>
  A dictionary is an association list with the keys in insertion order; \<open>dict_get\<close> is
  \<^verbatim>\<open>d.get(k, None)\<close> and \<open>has_key\<close> is \<^verbatim>\<open>k in d\<close>.
\<close>

type_synonym dict = "(string \<times> pyval) list"

definition dict_get :: "dict \<Rightarrow> string \<Rightarrow> pyval" where
  "dict_get d k = (case map_of d k of None \<Rightarrow> PyNone | Some v \<Rightarrow> v)"

definition has_key :: "dict \<Rightarrow> string \<Rightarrow> bool" where
  "has_key d k = (map_of d k \<noteq> None)"

text \<open>The double quote character, as a string.\<close>

definition dquote :: string where
  "dquote = [CHR 0x22]"

definition join :: "string \<Rightarrow> string list \<Rightarrow> string" where
  "join sep xs = (case xs of [] \<Rightarrow> [] | y # ys \<Rightarrow> y @ concat (map (\<lambda>x. sep @ x) ys))"

section \<open>The XML document returned by the package manager\<close>

text \<open>
  \<^verbatim>\<open>xml.dom.minidom\<close> is a library, so the parser itself is a parameter
  \<open>parseXML :: string \<Rightarrow> node list option\<close>: the child nodes of the document, or
  \<open>None\<close> when the parser raises. What the module does with the document is modelled:
  \<^verbatim>\<open>getElementsByTagName\<close> collects the matching descendant elements in document order,
  \<^verbatim>\<open>getAttribute\<close> gives the empty string for a missing attribute, and
  \<^verbatim>\<open>firstChild.data\<close> needs a first child that carries character data.
\<close>

datatype node = Text string | Element string "(string \<times> string) list" "node list"

type_synonym xml_parser = "string \<Rightarrow> node list option"

fun elements_by_tag :: "string \<Rightarrow> node \<Rightarrow> node list" where
  "elements_by_tag nm (Text d) = []"
| "elements_by_tag nm (Element tag attrs kids) =
     (if tag = nm then [Element tag attrs kids] else []) @ concat (map (elements_by_tag nm) kids)"

definition getElementsByTagName :: "node list \<Rightarrow> string \<Rightarrow> node list" where
  "getElementsByTagName nodes nm = concat (map (elements_by_tag nm) nodes)"

fun childNodes :: "node \<Rightarrow> node list" where
  "childNodes (Text d) = []"
| "childNodes (Element tag attrs kids) = kids"

fun getAttribute :: "node \<Rightarrow> string \<Rightarrow> string" where
  "getAttribute (Text d) a = []"
| "getAttribute (Element tag attrs kids) a = (case map_of attrs a of None \<Rightarrow> [] | Some v \<Rightarrow> v)"

section \<open>Commands, failures and the host framework\<close>

text \<open>
  A command is its argument vector. The package manager is a parameter: a function from the
  commands run so far and the command to run to exit code, stdout and stderr. Every function
  that runs commands takes the list of commands run so far and returns it extended, so the
  order of the external effects of a run can be read off.
\<close>

type_synonym cmd = "pyval list"

type_synonym zypper = "cmd list \<Rightarrow> cmd \<Rightarrow> int \<times> string \<times> string"

text \<open>
  \<^verbatim>\<open>module.fail_json\<close> ends the run; each call site is a constructor holding what the call
  reports. Python exceptions the module does not catch end the run too.
\<close>

datatype error =
    Validation string
  | Query_failed string int "string option" "string option"
  | More_than_one pyval "dict list"
  | Add_failed string
  | Check_rc_failed cmd int string string
  | ExpatError
  | IndexError
  | AttributeError

text \<open>
  Modelled from the spec: \<^verbatim>\<open>AnsibleModule.run_command\<close> of the host framework, which is
  imported by the module and not part of it. It runs the command and returns exit code,
  stdout and stderr; in strict-check mode (\<^verbatim>\<open>check_rc=True\<close>) every non-zero exit code is
  a fatal error.
\<close>

definition run_command ::
  "zypper \<Rightarrow> cmd list \<Rightarrow> cmd \<Rightarrow> bool \<Rightarrow> (error + int \<times> string \<times> string) \<times> cmd list" where
  "run_command z tr c check_rc =
     (case z tr c of (rc, out, err) \<Rightarrow>
        if check_rc \<and> rc \<noteq> 0 then (Inl (Check_rc_failed c rc out err), tr @ [c])
        else (Inr (rc, out, err), tr @ [c]))"

section \<open>The module\<close>

definition REPO_OPTS :: "string list" where
  "REPO_OPTS = [''alias'', ''name'', ''priority'', ''enabled'', ''autorefresh'', ''gpgcheck'']"

text \<open>
  \<^verbatim>\<open>repo.getElementsByTagName('url')[0].firstChild.data\<close>: indexing an empty list
  raises, and so does \<^verbatim>\<open>.data\<close> when there is no first child or it is an element.
\<close>

definition url_data :: "node \<Rightarrow> error + string" where
  "url_data repo =
     (case getElementsByTagName (childNodes repo) ''url'' of
        [] \<Rightarrow> Inl IndexError
      | u # us \<Rightarrow>
          (case childNodes u of
             Text d # ks \<Rightarrow> Inr d
           | _ \<Rightarrow> Inl AttributeError))"

text \<open>The body of the loop of \<^verbatim>\<open>_parse_repos\<close>: the dictionary of one repo element.\<close>

definition parse_repo :: "node \<Rightarrow> error + dict" where
  "parse_repo repo =
     (let opts = map (\<lambda>opt. (opt, PyStr (getAttribute repo opt))) REPO_OPTS in
      case url_data repo of
        Inl e \<Rightarrow> Inl e
      | Inr d \<Rightarrow> Inr (opts @ [(''url'', PyStr d)]))"

fun parse_repo_list :: "node list \<Rightarrow> dict list \<Rightarrow> error + dict list" where
  "parse_repo_list [] repos = Inr repos"
| "parse_repo_list (repo # repo_list) repos =
     (case parse_repo repo of
        Inl e \<Rightarrow> Inl e
      | Inr opts \<Rightarrow> parse_repo_list repo_list (repos @ [opts]))"

definition lr_cmd :: "string \<Rightarrow> cmd" where
  "lr_cmd ident = [PyStr ''/usr/bin/zypper'', PyStr ''-x'', PyStr ''lr'', PyStr ident]"

text \<open>\<^verbatim>\<open>_parse_repos(module, ident)\<close>.\<close>

definition parse_repos ::
  "zypper \<Rightarrow> xml_parser \<Rightarrow> cmd list \<Rightarrow> string \<Rightarrow> (error + dict list) \<times> cmd list" where
  "parse_repos z parseXML tr ident =
     (let c = lr_cmd ident in
      case run_command z tr c False of
        (Inl e, tr') \<Rightarrow> (Inl e, tr')
      | (Inr (rc, out, err), tr') \<Rightarrow>
          if rc = 0 then
            (case parseXML out of
               None \<Rightarrow> (Inl ExpatError, tr')
             | Some doc \<Rightarrow> (parse_repo_list (getElementsByTagName doc ''repo'') [], tr'))
          else if rc = 6 then (Inr [], tr')
          else
            (Inl (Query_failed
                    (''Failed to execute '' @ dquote @ join '' '' (map or_empty c) @ dquote)
                    rc
                    (if err \<noteq> [] then Some err else None)
                    (if out \<noteq> [] then Some out else None)), tr'))"

text \<open>The nested \<^verbatim>\<open>repo_changes(realrepo, repocmp)\<close>.\<close>

definition repo_changes :: "dict \<Rightarrow> dict \<Rightarrow> bool" where
  "repo_changes realrepo repocmp =
     (if list_ex (\<lambda>(k, c). \<not> has_key realrepo k) repocmp then True
      else list_ex (\<lambda>(k, v). has_key repocmp k \<and>
             rstrip CHR ''/'' (or_empty v) \<noteq> rstrip CHR ''/'' (or_empty (dict_get repocmp k)))
             realrepo)"

text \<open>The identity of \<^verbatim>\<open>repo_exists\<close>: the first truthy one of name, alias and url.\<close>

definition ident_of :: "dict \<Rightarrow> pyval" where
  "ident_of kwargs =
     por (por (dict_get kwargs ''name'') (dict_get kwargs ''alias'')) (dict_get kwargs ''url'')"

definition repo_exists ::
  "zypper \<Rightarrow> xml_parser \<Rightarrow> cmd list \<Rightarrow> dict \<Rightarrow> (error + bool \<times> bool) \<times> cmd list" where
  "repo_exists z parseXML tr kwargs =
     (let name = ident_of kwargs in
      case (if truthy name then parse_repos z parseXML tr (or_empty name) else (Inr [], tr)) of
        (Inl e, tr') \<Rightarrow> (Inl e, tr')
      | (Inr repos, tr') \<Rightarrow>
          (case repos of
             [r] \<Rightarrow> (Inr (True, repo_changes r kwargs), tr')
           | [] \<Rightarrow> (Inr (False, False), tr')
           | _ \<Rightarrow> (Inl (More_than_one name repos), tr')))"

definition rr_cmd :: "pyval \<Rightarrow> pyval \<Rightarrow> cmd" where
  "rr_cmd repo alias =
     [PyStr ''/usr/bin/zypper'', PyStr ''rr''] @ (if truthy alias then [alias] else [repo])"

definition remove_repo :: "zypper \<Rightarrow> cmd list \<Rightarrow> pyval \<Rightarrow> pyval \<Rightarrow> (error + bool) \<times> cmd list" where
  "remove_repo z tr repo alias =
     (case run_command z tr (rr_cmd repo alias) True of
        (Inl e, tr') \<Rightarrow> (Inl e, tr')
      | (Inr (rc, out, err), tr') \<Rightarrow> (Inr (rc = 0), tr'))"

text \<open>
  The command vector of \<^verbatim>\<open>modify_repo\<close>; \<^verbatim>\<open>repo.endswith\<close> raises for \<^verbatim>\<open>None\<close>.
\<close>

definition ar_cmd :: "pyval \<Rightarrow> pyval \<Rightarrow> pyval \<Rightarrow> bool \<Rightarrow> bool \<Rightarrow> error + cmd" where
  "ar_cmd repo alias description disable_gpg_check refresh =
     (let c = map PyStr [''/usr/bin/zypper'', ''ar'', ''--check'', ''-t'', ''plaindir''];
          c = (if truthy description then c @ [PyStr ''--name'', description] else c);
          c = (if disable_gpg_check then c @ [PyStr ''--no-gpgcheck''] else c);
          c = (if refresh then c @ [PyStr ''--refresh''] else c);
          c = c @ [repo]
      in case repo of
           PyNone \<Rightarrow> Inl AttributeError
         | PyStr s \<Rightarrow> Inr (if \<not> endswith s ''.repo'' then c @ [alias] else c))"

definition modify_repo ::
  "zypper \<Rightarrow> cmd list \<Rightarrow> pyval \<Rightarrow> pyval \<Rightarrow> pyval \<Rightarrow> bool \<Rightarrow> bool \<Rightarrow> bool \<Rightarrow>
   (error + bool) \<times> cmd list" where
  "modify_repo z tr repo alias description disable_gpg_check refresh remove_first =
     (case ar_cmd repo alias description disable_gpg_check refresh of
        Inl e \<Rightarrow> (Inl e, tr)
      | Inr c \<Rightarrow>
          (case (if remove_first then remove_repo z tr repo alias else (Inr True, tr)) of
             (Inl e, tr1) \<Rightarrow> (Inl e, tr1)
           | (Inr removed, tr1) \<Rightarrow>
               (case run_command z tr1 c False of
                  (Inl e, tr2) \<Rightarrow> (Inl e, tr2)
                | (Inr (rc, out, err), tr2) \<Rightarrow>
                    if rc = 0 then (Inr True, tr2)
                    else if err \<noteq> [] then (Inl (Add_failed err), tr2)
                    else (Inl (Add_failed out), tr2))))"

datatype state = Present | Absent

record params =
  p_repo :: pyval
  p_state :: state
  p_name :: pyval
  p_description :: pyval
  p_disable_gpg_check :: bool
  p_refresh :: bool

text \<open>
  How a run ends: \<^verbatim>\<open>exit_json\<close> with \<open>changed\<close>, \<open>repo\<close>, \<open>state\<close> and, from
  \<^verbatim>\<open>exit_unchanged\<close> only, \<open>name\<close>; or a failure.
\<close>

datatype outcome = Exit_json bool pyval state "pyval option" | Failed error

text \<open>The parameter checks of \<^verbatim>\<open>main\<close>, the first failing one reported.\<close>

definition check_params :: "params \<Rightarrow> error option" where
  "check_params p =
     (let repo = p_repo p; state = p_state p; name = p_name p in
      if state = Present \<and> \<not> truthy repo then
        Some (Validation ''Module option state=present requires repo'')
      else if state = Absent \<and> \<not> truthy repo \<and> \<not> truthy name then
        Some (Validation ''Alias or repo parameter required when state=absent'')
      else if truthy repo \<and> endswith (or_empty repo) ''.repo'' then
        (if truthy name then
           Some (Validation
             ''Incompatible option: 'name'. Do not use name when adding repo files'')
         else None)
      else
        (if \<not> truthy name \<and> state = Present then
           Some (Validation ''Name required when adding non-repo files:'')
         else None))"

definition main :: "zypper \<Rightarrow> xml_parser \<Rightarrow> params \<Rightarrow> outcome \<times> cmd list" where
  "main z parseXML p =
     (let repo = p_repo p; state = p_state p; name = p_name p;
          exit_unchanged = Exit_json False repo state (Some name) in
      case check_params p of
        Some e \<Rightarrow> (Failed e, [])
      | None \<Rightarrow>
          (case (if truthy repo \<and> endswith (or_empty repo) ''.repo'' \<or> truthy name
                 then repo_exists z parseXML [] [(''url'', repo), (''alias'', name)]
                 else repo_exists z parseXML [] [(''url'', repo)]) of
             (Inl e, tr) \<Rightarrow> (Failed e, tr)
           | (Inr (exists, mod'), tr) \<Rightarrow>
               (case state of
                  Present \<Rightarrow>
                    if exists \<and> \<not> mod' then (exit_unchanged, tr)
                    else
                      (case modify_repo z tr repo name (p_description p)
                              (p_disable_gpg_check p) (p_refresh p) mod' of
                         (Inl e, tr') \<Rightarrow> (Failed e, tr')
                       | (Inr changed, tr') \<Rightarrow> (Exit_json changed repo state None, tr'))
                | Absent \<Rightarrow>
                    if \<not> exists then (exit_unchanged, tr)
                    else
                      (case remove_repo z tr repo name of
                         (Inl e, tr') \<Rightarrow> (Failed e, tr')
                       | (Inr changed, tr') \<Rightarrow> (Exit_json changed repo state None, tr')))))"

text \<open>The keyword arguments \<^verbatim>\<open>main\<close> passes to \<^verbatim>\<open>repo_exists\<close>.\<close>

definition kwargs_of :: "params \<Rightarrow> dict" where
  "kwargs_of p =
     (if truthy (p_repo p) \<and> endswith (or_empty (p_repo p)) ''.repo'' \<or> truthy (p_name p)
      then [(''url'', p_repo p), (''alias'', p_name p)]
      else [(''url'', p_repo p)])"

section \<open>A sample package manager\<close>

text \<open>
  Concrete inputs for the examples below: the listing the package manager prints for a few
  identities, with the document the parser returns for it, and the exit codes of a locked
  package manager (7) and of one with no repositories defined (6).
\<close>

definition xml_repo :: "string \<Rightarrow> string \<Rightarrow> string" where
  "xml_repo alias url =
     ''<repo alias='' @ dquote @ alias @ dquote @ ''><url>'' @ url @ ''</url></repo>''"

definition xml_stream :: "string list \<Rightarrow> string" where
  "xml_stream rs = ''<stream><repo-list>'' @ concat rs @ ''</repo-list></stream>''"

definition dom_repo :: "string \<Rightarrow> string \<Rightarrow> node" where
  "dom_repo alias url = Element ''repo'' [(''alias'', alias)] [Element ''url'' [] [Text url]]"

definition dom_stream :: "node list \<Rightarrow> node list" where
  "dom_stream rs = [Element ''stream'' [] [Element ''repo-list'' [] rs]]"

definition nvidia_url :: string where
  "nvidia_url = ''ftp://download.nvidia.com/opensuse/12.2''"

definition python_url :: string where
  "python_url = ''http://download.opensuse.org/SLE_11_SP3/devel:languages:python.repo''"

definition ex_parseXML :: xml_parser where
  "ex_parseXML s =
     (if s = xml_stream [] then Some (dom_stream [])
      else if s = xml_stream [xml_repo ''nvidia-repo'' nvidia_url]
        then Some (dom_stream [dom_repo ''nvidia-repo'' nvidia_url])
      else if s = xml_stream [xml_repo ''python'' python_url]
        then Some (dom_stream [dom_repo ''python'' python_url])
      else if s = xml_stream [xml_repo ''dup1'' ''http://a'', xml_repo ''dup2'' ''http://b'']
        then Some (dom_stream [dom_repo ''dup1'' ''http://a'', dom_repo ''dup2'' ''http://b''])
      else if s = xml_stream [''<repo/>''] then Some (dom_stream [Element ''repo'' [] []])
      else None)"

definition ex_zypper :: zypper where
  "ex_zypper tr c =
     (if c = lr_cmd ''nvidia-repo'' then (0, xml_stream [xml_repo ''nvidia-repo'' nvidia_url], [])
      else if c = lr_cmd python_url then (0, xml_stream [xml_repo ''python'' python_url], [])
      else if c = lr_cmd ''dup''
        then (0, xml_stream [xml_repo ''dup1'' ''http://a'', xml_repo ''dup2'' ''http://b''], [])
      else if c = lr_cmd ''missing'' then (0, xml_stream [], [])
      else if c = lr_cmd ''broken'' then (0, xml_stream [''<repo/>''], [])
      else if c = lr_cmd ''locked'' then (7, [], ''System management is locked.'')
      else if c = rr_cmd PyNone (PyStr ''locked'') then (7, [], ''System management is locked.'')
      else if take 3 c = take 3 (lr_cmd []) then (6, [], ''No repositories defined.'')
      else (0, [], []))"

definition ex_params :: "string \<Rightarrow> state \<Rightarrow> string \<Rightarrow> params" where
  "ex_params repo st nm =
     \<lparr>p_repo = PyStr repo, p_state = st, p_name = PyStr nm, p_description = PyNone,
      p_disable_gpg_check = False, p_refresh = True\<rparr>"

text \<open>The same with the name omitted.\<close>

definition ex_params_noname :: "string \<Rightarrow> state \<Rightarrow> params" where
  "ex_params_noname repo st =
     \<lparr>p_repo = PyStr repo, p_state = st, p_name = PyNone, p_description = PyNone,
      p_disable_gpg_check = False, p_refresh = True\<rparr>"

text \<open>The entries the listing gives for the sample repositories.\<close>

definition ex_nvidia :: dict where
  "ex_nvidia =
     [(''alias'', PyStr ''nvidia-repo''), (''name'', PyStr []), (''priority'', PyStr []),
      (''enabled'', PyStr []), (''autorefresh'', PyStr []), (''gpgcheck'', PyStr []),
      (''url'', PyStr nvidia_url)]"

definition ex_python :: dict where
  "ex_python =
     [(''alias'', PyStr ''python''), (''name'', PyStr []), (''priority'', PyStr []),
      (''enabled'', PyStr []), (''autorefresh'', PyStr []), (''gpgcheck'', PyStr []),
      (''url'', PyStr python_url)]"

definition ex_dups :: "dict list" where
  "ex_dups =
     [[(''alias'', PyStr ''dup1''), (''name'', PyStr []), (''priority'', PyStr []),
       (''enabled'', PyStr []), (''autorefresh'', PyStr []), (''gpgcheck'', PyStr []),
       (''url'', PyStr ''http://a'')],
      [(''alias'', PyStr ''dup2''), (''name'', PyStr []), (''priority'', PyStr []),
       (''enabled'', PyStr []), (''autorefresh'', PyStr []), (''gpgcheck'', PyStr []),
       (''url'', PyStr ''http://b'')]]"

section \<open>Commands run by each operation\<close>

lemmas ex_defs = ex_zypper_def ex_parseXML_def xml_stream_def xml_repo_def dom_stream_def
  dom_repo_def nvidia_url_def python_url_def dquote_def lr_cmd_def rr_cmd_def ex_params_def
  ex_params_noname_def

lemmas eval_defs = main_def check_params_def endswith_def repo_exists_def ident_of_def por_def
  dict_get_def parse_repos_def run_command_def Let_def getElementsByTagName_def parse_repo_def
  url_data_def REPO_OPTS_def repo_changes_def has_key_def rstrip_def modify_repo_def ar_cmd_def
  remove_repo_def kwargs_of_def join_def

lemma run_command_trace: "snd (run_command z tr c b) = tr @ [c]"
  by (simp add: run_command_def split: prod.splits)

lemma run_command_unchecked: "run_command z tr c False = (Inr (z tr c), tr @ [c])"
  by (simp add: run_command_def split: prod.splits)

lemma parse_repos_trace: "snd (parse_repos z px tr i) = tr @ [lr_cmd i]"
  by (simp add: parse_repos_def run_command_unchecked Let_def split: prod.splits option.splits)

lemma ident_of_cases:
  "ident_of kw =
     (if truthy (dict_get kw ''name'') then dict_get kw ''name''
      else if truthy (dict_get kw ''alias'') then dict_get kw ''alias''
      else dict_get kw ''url'')"
  by (simp add: ident_of_def por_def)

lemma repo_exists_trace:
  "snd (repo_exists z px tr kw) =
     tr @ (if truthy (ident_of kw) then [lr_cmd (or_empty (ident_of kw))] else [])"
proof (cases "truthy (ident_of kw)")
  case True
  obtain r t where pr: "parse_repos z px tr (or_empty (ident_of kw)) = (r, t)"
    by (cases "parse_repos z px tr (or_empty (ident_of kw))")
  with parse_repos_trace [of z px tr "or_empty (ident_of kw)"]
  have "t = tr @ [lr_cmd (or_empty (ident_of kw))]" by simp
  with True pr show ?thesis
    by (simp add: repo_exists_def Let_def split: sum.splits list.splits)
next
  case False
  then show ?thesis by (simp add: repo_exists_def Let_def)
qed

lemma repo_exists_length: "length (snd (repo_exists z px [] kw)) \<le> 1"
  by (simp add: repo_exists_trace)

lemma repo_exists_differs_exists:
  "repo_exists z px tr kw = (Inr (ex, True), tr') \<Longrightarrow> ex"
  by (auto simp: repo_exists_def Let_def split: if_splits prod.splits sum.splits list.splits)

lemma remove_repo_trace: "snd (remove_repo z tr repo alias) = tr @ [rr_cmd repo alias]"
  by (simp add: remove_repo_def run_command_def split: prod.splits)

lemma remove_repo_result:
  "remove_repo z tr repo alias =
     (case z tr (rr_cmd repo alias) of (rc, out, err) \<Rightarrow>
        if rc = 0 then (Inr True, tr @ [rr_cmd repo alias])
        else (Inl (Check_rc_failed (rr_cmd repo alias) rc out err), tr @ [rr_cmd repo alias]))"
  by (simp add: remove_repo_def run_command_def split: prod.splits)

lemma modify_repo_trace_length:
  "length (snd (modify_repo z tr repo alias d g f rf)) \<le> length tr + (if rf then 2 else 1)"
  by (simp add: modify_repo_def remove_repo_result run_command_unchecked
      split: sum.splits prod.splits)

lemma parse_repos_pair:
  "fst (parse_repos z px tr i) = Inr repos \<Longrightarrow> parse_repos z px tr i = (Inr repos, tr @ [lr_cmd i])"
  using parse_repos_trace [of z px tr i] by (simp add: prod_eq_iff)

lemma repo_exists_found:
  assumes "truthy (ident_of kw)"
    and "fst (parse_repos z px tr (or_empty (ident_of kw))) = Inr repos"
  shows "repo_exists z px tr kw =
           (case repos of
              [] \<Rightarrow> (Inr (False, False), tr @ [lr_cmd (or_empty (ident_of kw))])
            | [r] \<Rightarrow> (Inr (True, repo_changes r kw), tr @ [lr_cmd (or_empty (ident_of kw))])
            | _ \<Rightarrow> (Inl (More_than_one (ident_of kw) repos), tr @ [lr_cmd (or_empty (ident_of kw))]))"
  using assms(1) parse_repos_pair [OF assms(2)]
  by (simp add: repo_exists_def Let_def split: list.splits)

lemma ar_cmd_str:
  "ar_cmd (PyStr s) alias d g f =
     Inr (map PyStr [''/usr/bin/zypper'', ''ar'', ''--check'', ''-t'', ''plaindir'']
          @ (if truthy d then [PyStr ''--name'', d] else [])
          @ (if g then [PyStr ''--no-gpgcheck''] else [])
          @ (if f then [PyStr ''--refresh''] else [])
          @ [PyStr s]
          @ (if endswith s ''.repo'' then [] else [alias]))"
  by (simp add: ar_cmd_def Let_def)

lemma modify_repo_remove_first:
  assumes "ar_cmd (PyStr s) alias d g f = Inr c"
  shows "snd (modify_repo z tr (PyStr s) alias d g f True) =
           (if fst (z tr (rr_cmd (PyStr s) alias)) = 0
            then tr @ [rr_cmd (PyStr s) alias, c]
            else tr @ [rr_cmd (PyStr s) alias])"
  using assms
  by (simp add: modify_repo_def remove_repo_result run_command_unchecked split: prod.splits)

lemma modify_repo_add:
  assumes "ar_cmd (PyStr s) alias d g f = Inr c"
  shows "modify_repo z tr (PyStr s) alias d g f False =
           (case z tr c of (rc, out, err) \<Rightarrow>
              if rc = 0 then Inr True else Inl (Add_failed (if err \<noteq> [] then err else out)),
            tr @ [c])"
  using assms
  by (simp add: modify_repo_def run_command_unchecked split: prod.splits)

section \<open>The run as a whole\<close>

lemma main_unfold:
  "check_params p = None \<Longrightarrow>
   main z px p =
     (case repo_exists z px [] (kwargs_of p) of
        (Inl e, tr) \<Rightarrow> (Failed e, tr)
      | (Inr (ex, md), tr) \<Rightarrow>
          (case p_state p of
             Present \<Rightarrow>
               if ex \<and> \<not> md then (Exit_json False (p_repo p) (p_state p) (Some (p_name p)), tr)
               else
                 (case modify_repo z tr (p_repo p) (p_name p) (p_description p)
                         (p_disable_gpg_check p) (p_refresh p) md of
                    (Inl e, tr') \<Rightarrow> (Failed e, tr')
                  | (Inr changed, tr') \<Rightarrow> (Exit_json changed (p_repo p) (p_state p) None, tr'))
           | Absent \<Rightarrow>
               if \<not> ex then (Exit_json False (p_repo p) (p_state p) (Some (p_name p)), tr)
               else
                 (case remove_repo z tr (p_repo p) (p_name p) of
                    (Inl e, tr') \<Rightarrow> (Failed e, tr')
                  | (Inr changed, tr') \<Rightarrow> (Exit_json changed (p_repo p) (p_state p) None, tr'))))"
  by (simp add: main_def kwargs_of_def Let_def)

lemma main_invalid: "check_params p = Some e \<Longrightarrow> main z px p = (Failed e, [])"
  by (simp add: main_def Let_def)

lemma checked_ident_truthy: "check_params p = None \<Longrightarrow> truthy (ident_of (kwargs_of p))"
  by (cases "p_state p")
     (auto simp: check_params_def kwargs_of_def ident_of_def por_def dict_get_def Let_def
           split: if_splits)

lemma main_token:
  "ident_of (kwargs_of p) = (if truthy (p_name p) then p_name p else p_repo p)"
  by (simp add: kwargs_of_def ident_of_def por_def dict_get_def)

lemma remove_repo_extends: "\<exists>rest. snd (remove_repo z tr repo alias) = tr @ rest"
  by (simp add: remove_repo_trace)

lemma modify_repo_extends:
  "\<exists>rest. snd (modify_repo z tr repo alias d g f rf) = tr @ rest"
  by (cases "z tr (rr_cmd repo alias)")
     (auto simp: modify_repo_def remove_repo_result run_command_unchecked
           split: sum.splits prod.splits if_splits)

lemma main_starts_with_query:
  assumes "check_params p = None"
  shows "take 1 (snd (main z px p)) = [lr_cmd (or_empty (ident_of (kwargs_of p)))]"
proof -
  let ?lr = "lr_cmd (or_empty (ident_of (kwargs_of p)))"
  obtain r tr where re: "repo_exists z px [] (kwargs_of p) = (r, tr)"
    by (cases "repo_exists z px [] (kwargs_of p)")
  with repo_exists_trace [of z px "[]" "kwargs_of p"] checked_ident_truthy [OF assms]
  have tr: "tr = [?lr]" by simp
  obtain rest1 where m: "snd (modify_repo z tr (p_repo p) (p_name p) (p_description p)
      (p_disable_gpg_check p) (p_refresh p) (snd (projr r))) = tr @ rest1"
    using modify_repo_extends by blast
  obtain rest2 where rm: "snd (remove_repo z tr (p_repo p) (p_name p)) = tr @ rest2"
    using remove_repo_extends by blast
  show ?thesis
  proof (cases r)
    case (Inl e)
    with assms re tr show ?thesis by (simp add: main_unfold)
  next
    case (Inr em)
    obtain ex md where em: "em = (ex, md)" by (cases em)
    show ?thesis
    proof (cases "p_state p")
      case Present
      with assms re tr Inr em m show ?thesis
        by (auto simp: main_unfold split: prod.splits sum.splits)
    next
      case Absent
      with assms re tr Inr em rm show ?thesis
        by (auto simp: main_unfold split: prod.splits sum.splits)
    qed
  qed
qed

text \<open>The parameter checks pass exactly when none of the four rejected combinations holds.\<close>

lemma check_params_complete:
  "check_params p = None \<longleftrightarrow>
     \<not> (p_state p = Present \<and> \<not> truthy (p_repo p)
         \<or> p_state p = Absent \<and> \<not> truthy (p_repo p) \<and> \<not> truthy (p_name p)
         \<or> truthy (p_repo p) \<and> endswith (or_empty (p_repo p)) ''.repo'' \<and> truthy (p_name p)
         \<or> \<not> endswith (or_empty (p_repo p)) ''.repo'' \<and> p_state p = Present \<and> \<not> truthy (p_name p))"
  by (cases "p_state p") (auto simp: check_params_def Let_def)

section \<open>Parsing the listing\<close>

lemma url_data_error: "url_data r = Inl e \<Longrightarrow> e = IndexError \<or> e = AttributeError"
  by (auto simp: url_data_def split: list.splits node.splits)

lemma parse_repo_Inr:
  "url_data r = Inr d \<Longrightarrow>
   parse_repo r = Inr (map (\<lambda>opt. (opt, PyStr (getAttribute r opt))) REPO_OPTS @ [(''url'', PyStr d)])"
  by (simp add: parse_repo_def)

lemma parse_repo_Inl: "url_data r = Inl e \<Longrightarrow> parse_repo r = Inl e"
  by (simp add: parse_repo_def)

lemma parse_repo_keys: "parse_repo r = Inr d \<Longrightarrow> map fst d = REPO_OPTS @ [''url'']"
  by (auto simp: parse_repo_def comp_def split: sum.splits)

lemma parse_repo_list_keys:
  "parse_repo_list rs acc = Inr ds \<Longrightarrow> \<forall>d\<in>set acc. map fst d = REPO_OPTS @ [''url''] \<Longrightarrow>
   \<forall>d\<in>set ds. map fst d = REPO_OPTS @ [''url'']"
proof (induction rs arbitrary: acc)
  case Nil
  then show ?case by simp
next
  case (Cons r rs)
  from Cons.prems(1) obtain d where d: "parse_repo r = Inr d"
    and rest: "parse_repo_list rs (acc @ [d]) = Inr ds"
    by (auto split: sum.splits)
  from d Cons.prems(2) have "\<forall>x\<in>set (acc @ [d]). map fst x = REPO_OPTS @ [''url'']"
    by (auto dest: parse_repo_keys)
  with Cons.IH [OF rest] show ?case by blast
qed

lemma parse_repos_keys:
  assumes "fst (parse_repos z px tr i) = Inr ds" and "d \<in> set ds"
  shows "map fst d = REPO_OPTS @ [''url'']"
proof -
  obtain rc out err where zr: "z tr (lr_cmd i) = (rc, out, err)" by (cases "z tr (lr_cmd i)")
  show ?thesis
  proof (cases "rc = 0")
    case True
    with assms(1) zr obtain doc where "px out = Some doc"
      and "parse_repo_list (getElementsByTagName doc ''repo'') [] = Inr ds"
      by (auto simp: parse_repos_def run_command_unchecked Let_def split: option.splits)
    from parse_repo_list_keys [OF this(2)] assms(2) show ?thesis by simp
  next
    case False
    with assms zr show ?thesis
      by (auto simp: parse_repos_def run_command_unchecked Let_def split: if_splits)
  qed
qed

lemma parse_repo_list_ok:
  "\<forall>r\<in>set rs. \<exists>d. url_data r = Inr d \<Longrightarrow>
   parse_repo_list rs acc =
     Inr (acc @ map (\<lambda>r. map (\<lambda>opt. (opt, PyStr (getAttribute r opt))) REPO_OPTS
                         @ [(''url'', PyStr (projr (url_data r)))]) rs)"
proof (induction rs arbitrary: acc)
  case Nil
  then show ?case by simp
next
  case (Cons r rs)
  then obtain d where d: "url_data r = Inr d" by auto
  from Cons.prems have "\<forall>r\<in>set rs. \<exists>d. url_data r = Inr d" by simp
  from Cons.IH [OF this] d show ?case by (simp add: parse_repo_Inr)
qed

lemma parse_repo_list_fail:
  "\<not> (\<forall>r\<in>set rs. \<exists>d. url_data r = Inr d) \<Longrightarrow>
   parse_repo_list rs acc = Inl IndexError \<or> parse_repo_list rs acc = Inl AttributeError"
proof (induction rs arbitrary: acc)
  case Nil
  then show ?case by simp
next
  case (Cons r rs)
  show ?case
  proof (cases "url_data r")
    case (Inl e)
    with url_data_error [OF Inl] show ?thesis by (auto simp: parse_repo_Inl)
  next
    case (Inr d)
    with Cons.prems have "\<not> (\<forall>r\<in>set rs. \<exists>d. url_data r = Inr d)" by simp
    from Cons.IH [OF this] Inr show ?thesis by (simp add: parse_repo_Inr)
  qed
qed

lemma join_lr_cmd:
  "join '' '' (map or_empty (lr_cmd ident)) = ''/usr/bin/zypper -x lr '' @ ident"
  by (simp add: join_def lr_cmd_def)

lemma REPO_OPTS_distinct: "distinct (REPO_OPTS @ [''url''])"
  by (simp add: REPO_OPTS_def)

section \<open>Comparing an entry with the expected values\<close>

lemma repo_changes_same:
  assumes dist: "distinct (map fst e)"
    and same: "\<forall>k c. map_of kw k = Some c \<longrightarrow>
             (\<exists>v. map_of e k = Some v \<and>
                  rstrip CHR ''/'' (or_empty v) = rstrip CHR ''/'' (or_empty c))"
  shows "\<not> repo_changes e kw"
proof -
  have 1: "\<not> list_ex (\<lambda>(k, c). \<not> has_key e k) kw"
  proof -
    have "has_key e k" if "(k, c) \<in> set kw" for k c
    proof -
      from that have "k \<in> fst ` set kw" by force
      then have "map_of kw k \<noteq> None" by (simp add: map_of_eq_None_iff)
      then obtain c' where "map_of kw k = Some c'" by auto
      with same show ?thesis by (auto simp: has_key_def)
    qed
    then show ?thesis by (auto simp: list_ex_iff)
  qed
  have 2: "\<not> list_ex (\<lambda>(k, v). has_key kw k \<and>
             rstrip CHR ''/'' (or_empty v) \<noteq> rstrip CHR ''/'' (or_empty (dict_get kw k))) e"
  proof -
    have "rstrip CHR ''/'' (or_empty v) = rstrip CHR ''/'' (or_empty (dict_get kw k))"
      if kv: "(k, v) \<in> set e" and hk: "has_key kw k" for k v
    proof -
      from hk obtain c where c: "map_of kw k = Some c" by (auto simp: has_key_def)
      with same obtain v' where v': "map_of e k = Some v'"
        and eq: "rstrip CHR ''/'' (or_empty v') = rstrip CHR ''/'' (or_empty c)" by blast
      from dist kv have "map_of e k = Some v" by simp
      with v' have "v' = v" by simp
      with eq c show ?thesis by (simp add: dict_get_def)
    qed
    then show ?thesis by (auto simp: list_ex_iff)
  qed
  from 1 2 show ?thesis by (simp add: repo_changes_def)
qed

lemma repo_changes_none:
  assumes "map_of kw k = Some PyNone" and "(k, v) \<in> set e"
    and "rstrip CHR ''/'' (or_empty v) \<noteq> []"
  shows "repo_changes e kw"
proof -
  from assms(1) have "has_key kw k" and "dict_get kw k = PyNone"
    by (simp_all add: has_key_def dict_get_def)
  with assms(3) have "has_key kw k \<and>
      rstrip CHR ''/'' (or_empty v) \<noteq> rstrip CHR ''/'' (or_empty (dict_get kw k))"
    by (simp add: rstrip_def)
  with assms(2) have "list_ex (\<lambda>(k, v). has_key kw k \<and>
             rstrip CHR ''/'' (or_empty v) \<noteq> rstrip CHR ''/'' (or_empty (dict_get kw k))) e"
    by (auto simp: list_ex_iff)
  then show ?thesis by (simp add: repo_changes_def)
qed

section \<open>Identity of a repository\<close>

text \<open>
  C1 (as the code has it). The spec gives the priority of the identity token as alias, name,
  URI. \<^verbatim>\<open>repo_exists\<close> takes the first non-empty one of name, alias and url, in that order,
  as its own comment says, and runs the listing command with that token; with none of them
  it runs no command. \<^verbatim>\<open>main\<close> passes the module's name as alias, the URI as url and
  never a name, so there the token is the module's name when given and the URI otherwise,
  and the listing for that token is the first command of every run with valid parameters.
\<close>

theorem C1_identity_priority:
  "snd (repo_exists z parseXML tr kwargs) =
     tr @ (if truthy (dict_get kwargs ''name'')
             then [lr_cmd (or_empty (dict_get kwargs ''name''))]
           else if truthy (dict_get kwargs ''alias'')
             then [lr_cmd (or_empty (dict_get kwargs ''alias''))]
           else if truthy (dict_get kwargs ''url'')
             then [lr_cmd (or_empty (dict_get kwargs ''url''))]
           else []) \<and>
   dict_get (kwargs_of p) ''name'' = PyNone \<and>
   dict_get (kwargs_of p) ''url'' = p_repo p \<and>
   ident_of (kwargs_of p) = (if truthy (p_name p) then p_name p else p_repo p) \<and>
   (check_params p = None \<longrightarrow>
      take 1 (snd (main z parseXML p)) =
        [lr_cmd (or_empty (if truthy (p_name p) then p_name p else p_repo p))])"
proof -
  have a: "snd (repo_exists z parseXML tr kwargs) =
     tr @ (if truthy (dict_get kwargs ''name'')
             then [lr_cmd (or_empty (dict_get kwargs ''name''))]
           else if truthy (dict_get kwargs ''alias'')
             then [lr_cmd (or_empty (dict_get kwargs ''alias''))]
           else if truthy (dict_get kwargs ''url'')
             then [lr_cmd (or_empty (dict_get kwargs ''url''))]
           else [])"
    by (simp add: repo_exists_trace ident_of_cases)
  have b: "dict_get (kwargs_of p) ''name'' = PyNone" "dict_get (kwargs_of p) ''url'' = p_repo p"
    by (simp_all add: kwargs_of_def dict_get_def)
  have c: "check_params p = None \<longrightarrow>
      take 1 (snd (main z parseXML p)) =
        [lr_cmd (or_empty (if truthy (p_name p) then p_name p else p_repo p))]"
    using main_starts_with_query [of p z parseXML] by (simp add: main_token)
  from a b c main_token [of p] show ?thesis by simp
qed

theorem C1_identity_priority_witness:
  "snd (repo_exists ex_zypper ex_parseXML []
          [(''url'', PyStr nvidia_url), (''alias'', PyStr ''nvidia-repo'')]) =
     [lr_cmd ''nvidia-repo''] \<and>
   check_params (ex_params_noname python_url Present) = None \<and>
   take 1 (snd (main ex_zypper ex_parseXML (ex_params_noname python_url Present))) =
     [lr_cmd python_url]"
proof -
  have h: "check_params (ex_params_noname python_url Present) = None"
    by (simp add: eval_defs ex_defs)
  have n: "p_name (ex_params_noname python_url Present) = PyNone"
    "p_repo (ex_params_noname python_url Present) = PyStr python_url"
    by (simp_all add: ex_params_noname_def)
  from C1_identity_priority [of ex_zypper ex_parseXML "[]"
      "[(''url'', PyStr nvidia_url), (''alias'', PyStr ''nvidia-repo'')]"
      "ex_params_noname python_url Present"] h n
  show ?thesis by (simp add: dict_get_def)
qed

text \<open>
  C1 as the spec states it fails: with both a name and an alias supplied, the listing is
  asked for the name, not for the alias.
\<close>

theorem C1_alias_first_counterexample:
  "snd (repo_exists ex_zypper ex_parseXML [] [(''name'', PyStr ''n''), (''alias'', PyStr ''a'')]) =
     [lr_cmd ''n''] \<and>
   snd (repo_exists ex_zypper ex_parseXML [] [(''name'', PyStr ''n''), (''alias'', PyStr ''a'')]) \<noteq>
     [lr_cmd ''a'']"
  by (simp add: eval_defs ex_defs)

section \<open>Idempotence\<close>

text \<open>
  C2. Let the desired state be present and the parameters valid, and let the listing return
  exactly one entry that has every key passed for comparison, with a value equal to the passed
  one after \<^verbatim>\<open>None\<close> is read as the empty string and trailing slashes are stripped
  on both sides. Then \<^verbatim>\<open>repo_exists\<close> returns exists and not differs, and the run ends
  unchanged: it reports \<open>changed = False\<close> and the listing is the only command it ran.
\<close>

theorem C2_idempotent:
  assumes "p_state p = Present" and "check_params p = None"
    and "fst (parse_repos z parseXML [] (or_empty (ident_of (kwargs_of p)))) = Inr [e]"
    and "\<forall>k c. map_of (kwargs_of p) k = Some c \<longrightarrow>
           (\<exists>v. map_of e k = Some v \<and>
                rstrip CHR ''/'' (or_empty v) = rstrip CHR ''/'' (or_empty c))"
  shows "repo_exists z parseXML [] (kwargs_of p) =
           (Inr (True, False), [lr_cmd (or_empty (ident_of (kwargs_of p)))]) \<and>
         main z parseXML p =
           (Exit_json False (p_repo p) Present (Some (p_name p)),
            [lr_cmd (or_empty (ident_of (kwargs_of p)))])"
proof -
  have t: "truthy (ident_of (kwargs_of p))" using assms(2) by (rule checked_ident_truthy)
  from parse_repos_keys [OF assms(3), of e] have "map fst e = REPO_OPTS @ [''url'']"
    by simp
  with REPO_OPTS_distinct have "distinct (map fst e)"
    by (simp only:)
  from repo_changes_same [OF this assms(4)] have "\<not> repo_changes e (kwargs_of p)" .
  with repo_exists_found [OF t assms(3)]
  have re: "repo_exists z parseXML [] (kwargs_of p) =
           (Inr (True, False), [lr_cmd (or_empty (ident_of (kwargs_of p)))])"
    by simp
  with assms(1,2) show ?thesis by (simp add: main_unfold)
qed

theorem C2_idempotent_witness:
  "p_state (ex_params (nvidia_url @ ''/'') Present ''nvidia-repo'') = Present \<and>
   check_params (ex_params (nvidia_url @ ''/'') Present ''nvidia-repo'') = None \<and>
   fst (parse_repos ex_zypper ex_parseXML [] ''nvidia-repo'') = Inr [ex_nvidia] \<and>
   main ex_zypper ex_parseXML (ex_params (nvidia_url @ ''/'') Present ''nvidia-repo'') =
     (Exit_json False (PyStr (nvidia_url @ ''/'')) Present (Some (PyStr ''nvidia-repo'')),
      [lr_cmd ''nvidia-repo''])"
proof -
  let ?p = "ex_params (nvidia_url @ ''/'') Present ''nvidia-repo''"
  have kw: "kwargs_of ?p = [(''url'', PyStr (nvidia_url @ ''/'')), (''alias'', PyStr ''nvidia-repo'')]"
    by (simp add: kwargs_of_def ex_params_def)
  have k: "ident_of (kwargs_of ?p) = PyStr ''nvidia-repo''"
    by (simp add: kw ident_of_def por_def dict_get_def)
  have h1: "p_state ?p = Present" by (simp add: ex_params_def)
  have h2: "check_params ?p = None" by (simp add: eval_defs ex_defs)
  have q: "fst (parse_repos ex_zypper ex_parseXML [] ''nvidia-repo'') = Inr [ex_nvidia]"
    by (simp add: eval_defs ex_defs ex_nvidia_def)
  then have h3: "fst (parse_repos ex_zypper ex_parseXML [] (or_empty (ident_of (kwargs_of ?p)))) =
      Inr [ex_nvidia]"
    by (simp add: k)
  have h4: "\<forall>k c. map_of (kwargs_of ?p) k = Some c \<longrightarrow>
           (\<exists>v. map_of ex_nvidia k = Some v \<and>
                rstrip CHR ''/'' (or_empty v) = rstrip CHR ''/'' (or_empty c))"
    unfolding kw by (simp add: ex_nvidia_def rstrip_def nvidia_url_def)
  from C2_idempotent [OF h1 h2 h3 h4, unfolded k]
  have m: "main ex_zypper ex_parseXML ?p =
     (Exit_json False (p_repo ?p) Present (Some (p_name ?p)), [lr_cmd ''nvidia-repo''])"
    by simp
  from m h1 h2 q show ?thesis
    by (simp add: ex_params_def)
qed

section \<open>Number of external commands\<close>

text \<open>
  C3 (as the code has it). The spec bounds a run by 2 external commands. A run executes at
  most 3: the listing, and then either one removal, or one addition, or a removal followed by
  an addition. It executes 3 only when the desired state is present and the listing showed an
  existing repository that differs.
\<close>

theorem C3_at_most_three_commands:
  "length (snd (main z parseXML p)) \<le> 3 \<and>
   (length (snd (main z parseXML p)) = 3 \<longrightarrow>
      p_state p = Present \<and> fst (repo_exists z parseXML [] (kwargs_of p)) = Inr (True, True))"
proof (cases "check_params p")
  case (Some e)
  then show ?thesis by (simp add: main_invalid)
next
  case None
  obtain r tr where re: "repo_exists z parseXML [] (kwargs_of p) = (r, tr)"
    by (cases "repo_exists z parseXML [] (kwargs_of p)")
  with repo_exists_length [of z parseXML "kwargs_of p"] have tr: "length tr \<le> 1" by simp
  show ?thesis
  proof (cases r)
    case (Inl e)
    with None re tr show ?thesis by (simp add: main_unfold)
  next
    case (Inr em)
    obtain ex md where em: "em = (ex, md)" by (cases em)
    show ?thesis
    proof (cases "p_state p")
      case Present
      have "length (snd (modify_repo z tr (p_repo p) (p_name p) (p_description p)
                (p_disable_gpg_check p) (p_refresh p) md)) \<le> length tr + (if md then 2 else 1)"
        by (rule modify_repo_trace_length)
      with None re tr Inr em Present show ?thesis
        by (auto simp: main_unfold split: prod.splits sum.splits if_splits
            dest: repo_exists_differs_exists)
    next
      case Absent
      have "snd (remove_repo z tr (p_repo p) (p_name p)) = tr @ [rr_cmd (p_repo p) (p_name p)]"
        by (rule remove_repo_trace)
      with None re tr Inr em Absent show ?thesis
        by (auto simp: main_unfold split: prod.splits sum.splits)
    qed
  qed
qed

theorem C3_at_most_three_commands_witness:
  "length (snd (main ex_zypper ex_parseXML (ex_params_noname python_url Present))) = 3 \<and>
   p_state (ex_params_noname python_url Present) = Present \<and>
   fst (repo_exists ex_zypper ex_parseXML [] (kwargs_of (ex_params_noname python_url Present))) =
     Inr (True, True)"
proof -
  have "length (snd (main ex_zypper ex_parseXML (ex_params_noname python_url Present))) = 3"
    by (simp add: eval_defs ex_defs)
  with C3_at_most_three_commands [of ex_zypper ex_parseXML "ex_params_noname python_url Present"]
  show ?thesis by simp
qed

text \<open>
  C3 as the spec states it fails: replacing the differing repository \<open>nvidia-repo\<close> runs the
  listing, the removal and the addition.
\<close>

theorem C3_two_commands_counterexample:
  "snd (main ex_zypper ex_parseXML (ex_params ''http://other'' Present ''nvidia-repo'')) =
     [lr_cmd ''nvidia-repo'',
      rr_cmd (PyStr ''http://other'') (PyStr ''nvidia-repo''),
      map PyStr [''/usr/bin/zypper'', ''ar'', ''--check'', ''-t'', ''plaindir'', ''--refresh'',
                 ''http://other'', ''nvidia-repo'']] \<and>
   \<not> length (snd (main ex_zypper ex_parseXML (ex_params ''http://other'' Present ''nvidia-repo''))) \<le> 2"
  by (simp add: eval_defs ex_defs)

section \<open>Ambiguous identity\<close>

text \<open>
  C4. When the listing returns more than one entry, \<^verbatim>\<open>repo_exists\<close> fails with the
  error that carries the identity and all the entries returned, and a run of \<^verbatim>\<open>main\<close>
  ends with that failure having run the listing only: nothing is removed or added.
\<close>

theorem C4_ambiguous_identity:
  assumes "truthy (ident_of kwargs)"
    and "fst (parse_repos z parseXML tr (or_empty (ident_of kwargs))) = Inr repos"
    and "1 < length repos"
  shows "repo_exists z parseXML tr kwargs =
           (Inl (More_than_one (ident_of kwargs) repos), tr @ [lr_cmd (or_empty (ident_of kwargs))]) \<and>
         (\<forall>p. check_params p = None \<and> kwargs_of p = kwargs \<and> tr = [] \<longrightarrow>
            main z parseXML p =
              (Failed (More_than_one (ident_of kwargs) repos), [lr_cmd (or_empty (ident_of kwargs))]))"
proof -
  from assms(3) obtain a b rest where "repos = a # b # rest"
    by (cases repos; cases "tl repos") auto
  with repo_exists_found [OF assms(1,2)]
  have re: "repo_exists z parseXML tr kwargs =
           (Inl (More_than_one (ident_of kwargs) repos), tr @ [lr_cmd (or_empty (ident_of kwargs))])"
    by simp
  then show ?thesis by (auto simp: main_unfold)
qed

theorem C4_ambiguous_identity_witness:
  "fst (parse_repos ex_zypper ex_parseXML [] ''dup'') = Inr ex_dups \<and> 1 < length ex_dups \<and>
   main ex_zypper ex_parseXML (ex_params ''http://other'' Present ''dup'') =
     (Failed (More_than_one (PyStr ''dup'') ex_dups), [lr_cmd ''dup''])"
proof -
  let ?p = "ex_params ''http://other'' Present ''dup''"
  have k: "ident_of (kwargs_of ?p) = PyStr ''dup''"
    by (simp add: eval_defs ex_defs)
  have h1: "truthy (ident_of (kwargs_of ?p))" by (simp add: k)
  have q: "fst (parse_repos ex_zypper ex_parseXML [] ''dup'') = Inr ex_dups"
    by (simp add: eval_defs ex_defs ex_dups_def)
  then have h2: "fst (parse_repos ex_zypper ex_parseXML [] (or_empty (ident_of (kwargs_of ?p)))) =
      Inr ex_dups"
    by (simp add: k)
  have h3: "1 < length ex_dups" by (simp add: ex_dups_def)
  have h4: "check_params ?p = None" by (simp add: eval_defs ex_defs)
  from C4_ambiguous_identity [OF h1 h2 h3] h4 q h3 show ?thesis
    by (simp add: k)
qed

section \<open>Exit codes of the listing\<close>

text \<open>
  C5 (as the code has it). With exit code 6 the query returns the empty list. With any exit
  code other than 0 and 6 it fails, reporting the command, the exit code and, each only when
  non-empty, stderr and stdout. With exit code 0 the result depends on the output: a fault
  when the parser rejects it or when some repo element has no url element starting with
  character data, and otherwise one entry per repo element, in order, holding its six
  attributes and its url; that list is empty when the output has no repo element.
\<close>

theorem C5_query_exit_codes:
  assumes "z tr (lr_cmd ident) = (rc, out, err)"
  shows "(rc = 6 \<longrightarrow> fst (parse_repos z parseXML tr ident) = Inr []) \<and>
         (rc \<noteq> 0 \<and> rc \<noteq> 6 \<longrightarrow>
            fst (parse_repos z parseXML tr ident) =
              Inl (Query_failed
                     (''Failed to execute '' @ dquote @ ''/usr/bin/zypper -x lr '' @ ident @ dquote)
                     rc (if err \<noteq> [] then Some err else None)
                     (if out \<noteq> [] then Some out else None))) \<and>
         (rc = 0 \<and> parseXML out = None \<longrightarrow> fst (parse_repos z parseXML tr ident) = Inl ExpatError) \<and>
         (\<forall>doc. rc = 0 \<and> parseXML out = Some doc \<and>
                \<not> (\<forall>r\<in>set (getElementsByTagName doc ''repo''). \<exists>d. url_data r = Inr d) \<longrightarrow>
            fst (parse_repos z parseXML tr ident) = Inl IndexError \<or>
            fst (parse_repos z parseXML tr ident) = Inl AttributeError) \<and>
         (\<forall>doc. rc = 0 \<and> parseXML out = Some doc \<and>
                (\<forall>r\<in>set (getElementsByTagName doc ''repo''). \<exists>d. url_data r = Inr d) \<longrightarrow>
            (\<exists>repos. fst (parse_repos z parseXML tr ident) = Inr repos \<and>
               length repos = length (getElementsByTagName doc ''repo'') \<and>
               (\<forall>i<length repos.
                  map fst (repos ! i) = REPO_OPTS @ [''url''] \<and>
                  (\<forall>opt\<in>set REPO_OPTS.
                     dict_get (repos ! i) opt =
                       PyStr (getAttribute (getElementsByTagName doc ''repo'' ! i) opt)) \<and>
                  url_data (getElementsByTagName doc ''repo'' ! i) =
                    Inr (or_empty (dict_get (repos ! i) ''url'')))))"
proof -
  let ?res = "fst (parse_repos z parseXML tr ident)"
  have res: "?res =
     (if rc = 0 then
        (case parseXML out of
           None \<Rightarrow> Inl ExpatError
         | Some doc \<Rightarrow> parse_repo_list (getElementsByTagName doc ''repo'') [])
      else if rc = 6 then Inr []
      else Inl (Query_failed
                  (''Failed to execute '' @ dquote @ join '' '' (map or_empty (lr_cmd ident)) @ dquote)
                  rc (if err \<noteq> [] then Some err else None)
                  (if out \<noteq> [] then Some out else None)))"
    using assms
    by (simp add: parse_repos_def run_command_unchecked Let_def split: option.splits)
  have a: "rc = 6 \<longrightarrow> ?res = Inr []" by (simp add: res)
  have b: "rc \<noteq> 0 \<and> rc \<noteq> 6 \<longrightarrow>
            ?res = Inl (Query_failed
                     (''Failed to execute '' @ dquote @ ''/usr/bin/zypper -x lr '' @ ident @ dquote)
                     rc (if err \<noteq> [] then Some err else None)
                     (if out \<noteq> [] then Some out else None))"
    by (simp add: res join_lr_cmd)
  have c: "rc = 0 \<and> parseXML out = None \<longrightarrow> ?res = Inl ExpatError" by (simp add: res)
  have d: "\<forall>doc. rc = 0 \<and> parseXML out = Some doc \<and>
                \<not> (\<forall>r\<in>set (getElementsByTagName doc ''repo''). \<exists>d. url_data r = Inr d) \<longrightarrow>
            ?res = Inl IndexError \<or> ?res = Inl AttributeError"
  proof (intro allI impI)
    fix doc
    assume h: "rc = 0 \<and> parseXML out = Some doc \<and>
                \<not> (\<forall>r\<in>set (getElementsByTagName doc ''repo''). \<exists>d. url_data r = Inr d)"
    then have "?res = parse_repo_list (getElementsByTagName doc ''repo'') []" by (simp add: res)
    with parse_repo_list_fail [of "getElementsByTagName doc ''repo''" "[]"] h
    show "?res = Inl IndexError \<or> ?res = Inl AttributeError" by simp
  qed
  have e: "\<forall>doc. rc = 0 \<and> parseXML out = Some doc \<and>
                (\<forall>r\<in>set (getElementsByTagName doc ''repo''). \<exists>d. url_data r = Inr d) \<longrightarrow>
            (\<exists>repos. ?res = Inr repos \<and>
               length repos = length (getElementsByTagName doc ''repo'') \<and>
               (\<forall>i<length repos.
                  map fst (repos ! i) = REPO_OPTS @ [''url''] \<and>
                  (\<forall>opt\<in>set REPO_OPTS.
                     dict_get (repos ! i) opt =
                       PyStr (getAttribute (getElementsByTagName doc ''repo'' ! i) opt)) \<and>
                  url_data (getElementsByTagName doc ''repo'' ! i) =
                    Inr (or_empty (dict_get (repos ! i) ''url''))))"
  proof (intro allI impI)
    fix doc
    let ?rs = "getElementsByTagName doc ''repo''"
    let ?entry = "\<lambda>r. map (\<lambda>opt. (opt, PyStr (getAttribute r opt))) REPO_OPTS
                         @ [(''url'', PyStr (projr (url_data r)))]"
    assume h: "rc = 0 \<and> parseXML out = Some doc \<and> (\<forall>r\<in>set ?rs. \<exists>d. url_data r = Inr d)"
    then have "?res = parse_repo_list ?rs []" by (simp add: res)
    with parse_repo_list_ok [of ?rs "[]"] h have r: "?res = Inr (map ?entry ?rs)" by simp
    have "\<forall>i<length ?rs.
            map fst (map ?entry ?rs ! i) = REPO_OPTS @ [''url''] \<and>
            (\<forall>opt\<in>set REPO_OPTS.
               dict_get (map ?entry ?rs ! i) opt = PyStr (getAttribute (?rs ! i) opt)) \<and>
            url_data (?rs ! i) = Inr (or_empty (dict_get (map ?entry ?rs ! i) ''url''))"
    proof (intro allI impI)
      fix i assume i: "i < length ?rs"
      then have "?rs ! i \<in> set ?rs" by simp
      with h obtain d where d: "url_data (?rs ! i) = Inr d" by blast
      have k: "map fst (?entry (?rs ! i)) = REPO_OPTS @ [''url'']" by (simp add: comp_def)
      have o: "\<forall>opt\<in>set REPO_OPTS.
                 dict_get (?entry (?rs ! i)) opt = PyStr (getAttribute (?rs ! i) opt)"
        by (simp add: dict_get_def REPO_OPTS_def)
      have u: "dict_get (?entry (?rs ! i)) ''url'' = PyStr d"
        by (simp add: dict_get_def REPO_OPTS_def d)
      from i k o u d
      show "map fst (map ?entry ?rs ! i) = REPO_OPTS @ [''url''] \<and>
            (\<forall>opt\<in>set REPO_OPTS.
               dict_get (map ?entry ?rs ! i) opt = PyStr (getAttribute (?rs ! i) opt)) \<and>
            url_data (?rs ! i) = Inr (or_empty (dict_get (map ?entry ?rs ! i) ''url''))"
        by simp
    qed
    with r show "\<exists>repos. ?res = Inr repos \<and>
               length repos = length ?rs \<and>
               (\<forall>i<length repos.
                  map fst (repos ! i) = REPO_OPTS @ [''url''] \<and>
                  (\<forall>opt\<in>set REPO_OPTS.
                     dict_get (repos ! i) opt = PyStr (getAttribute (?rs ! i) opt)) \<and>
                  url_data (?rs ! i) = Inr (or_empty (dict_get (repos ! i) ''url'')))"
      by simp
  qed
  from a b c d e show ?thesis by blast
qed

theorem C5_query_exit_codes_witness:
  "ex_zypper [] (lr_cmd ''nvidia-repo'') =
     (0, xml_stream [xml_repo ''nvidia-repo'' nvidia_url], []) \<and>
   ex_zypper [] (lr_cmd ''locked'') = (7, [], ''System management is locked.'') \<and>
   (\<exists>repos. fst (parse_repos ex_zypper ex_parseXML [] ''nvidia-repo'') = Inr repos \<and>
      length repos = 1 \<and> dict_get (repos ! 0) ''alias'' = PyStr ''nvidia-repo'') \<and>
   fst (parse_repos ex_zypper ex_parseXML [] ''locked'') =
     Inl (Query_failed (''Failed to execute '' @ dquote @ ''/usr/bin/zypper -x lr locked'' @ dquote)
            7 (Some ''System management is locked.'') None)"
proof -
  let ?doc = "dom_stream [dom_repo ''nvidia-repo'' nvidia_url]"
  have h1: "ex_zypper [] (lr_cmd ''nvidia-repo'') =
     (0, xml_stream [xml_repo ''nvidia-repo'' nvidia_url], [])"
    by (simp add: ex_defs)
  have h2: "ex_zypper [] (lr_cmd ''locked'') = (7, [], ''System management is locked.'')"
    by (simp add: ex_defs)
  have p: "ex_parseXML (xml_stream [xml_repo ''nvidia-repo'' nvidia_url]) = Some ?doc"
    by (simp add: ex_defs)
  have rs: "getElementsByTagName ?doc ''repo'' = [dom_repo ''nvidia-repo'' nvidia_url]"
    by (simp add: getElementsByTagName_def dom_stream_def dom_repo_def)
  have u: "url_data (dom_repo ''nvidia-repo'' nvidia_url) = Inr nvidia_url"
    by (simp add: url_data_def getElementsByTagName_def dom_repo_def)
  from C5_query_exit_codes [of ex_zypper "[]" "''nvidia-repo''" 0
      "xml_stream [xml_repo ''nvidia-repo'' nvidia_url]" "[]" ex_parseXML, OF h1] p rs u
  obtain repos where "fst (parse_repos ex_zypper ex_parseXML [] ''nvidia-repo'') = Inr repos"
    and "length repos = 1"
    and "dict_get (repos ! 0) ''alias'' = PyStr (getAttribute (dom_repo ''nvidia-repo'' nvidia_url) ''alias'')"
    by (auto simp: REPO_OPTS_def)
  then have a: "\<exists>repos. fst (parse_repos ex_zypper ex_parseXML [] ''nvidia-repo'') = Inr repos \<and>
      length repos = 1 \<and> dict_get (repos ! 0) ''alias'' = PyStr ''nvidia-repo''"
    by (auto simp: dom_repo_def)
  from C5_query_exit_codes [of ex_zypper "[]" "''locked''" 7 "[]"
      "''System management is locked.''" ex_parseXML, OF h2]
  have b: "fst (parse_repos ex_zypper ex_parseXML [] ''locked'') =
     Inl (Query_failed (''Failed to execute '' @ dquote @ ''/usr/bin/zypper -x lr locked'' @ dquote)
            7 (Some ''System management is locked.'') None)"
    by simp
  from h1 h2 a b show ?thesis by blast
qed

text \<open>
  C5 as the spec states it (a list exactly for exit code 0, the empty list exactly for exit
  code 6, stdout and stderr always reported) fails: with exit code 0 and no repo element the
  result is the empty list, with exit code 0 and a repo element without url the query raises
  instead of returning a list, and an empty stdout is left out of the failure report.
\<close>

theorem C5_exactly_when_counterexample:
  "fst (ex_zypper [] (lr_cmd ''missing'')) = 0 \<and>
   fst (parse_repos ex_zypper ex_parseXML [] ''missing'') = Inr [] \<and>
   fst (ex_zypper [] (lr_cmd ''broken'')) = 0 \<and>
   fst (parse_repos ex_zypper ex_parseXML [] ''broken'') = Inl IndexError \<and>
   fst (parse_repos ex_zypper ex_parseXML [] ''locked'') =
     Inl (Query_failed (''Failed to execute '' @ dquote @ ''/usr/bin/zypper -x lr locked'' @ dquote)
            7 (Some ''System management is locked.'') None)"
  by (simp add: eval_defs ex_defs)

section \<open>Parameter validation\<close>

text \<open>
  C6. If the desired state is present and no URI is given, or it is absent and neither URI
  nor name is given, or the URI ends in \<open>.repo\<close> and a name is given, or the URI does not end
  in \<open>.repo\<close>, the state is present and no name is given, then the run fails with a validation
  error and has run no external command.
\<close>

theorem C6_validation_first:
  assumes "p_state p = Present \<and> \<not> truthy (p_repo p)
         \<or> p_state p = Absent \<and> \<not> truthy (p_repo p) \<and> \<not> truthy (p_name p)
         \<or> truthy (p_repo p) \<and> endswith (or_empty (p_repo p)) ''.repo'' \<and> truthy (p_name p)
         \<or> \<not> endswith (or_empty (p_repo p)) ''.repo'' \<and> p_state p = Present \<and> \<not> truthy (p_name p)"
  shows "\<exists>msg. main z parseXML p = (Failed (Validation msg), [])"
proof -
  from assms have "\<exists>msg. check_params p = Some (Validation msg)"
    by (auto simp: check_params_def Let_def)
  then show ?thesis by (auto simp: main_invalid)
qed

theorem C6_validation_first_witness:
  "truthy (p_repo (ex_params python_url Present ''python'')) \<and>
   endswith (or_empty (p_repo (ex_params python_url Present ''python''))) ''.repo'' \<and>
   truthy (p_name (ex_params python_url Present ''python'')) \<and>
   (\<exists>msg. main ex_zypper ex_parseXML (ex_params python_url Present ''python'') =
      (Failed (Validation msg), []))"
proof -
  have h: "truthy (p_repo (ex_params python_url Present ''python'')) \<and>
   endswith (or_empty (p_repo (ex_params python_url Present ''python''))) ''.repo'' \<and>
   truthy (p_name (ex_params python_url Present ''python''))"
    by (simp add: ex_defs endswith_def)
  with C6_validation_first [of "ex_params python_url Present ''python''" ex_zypper ex_parseXML]
  show ?thesis by blast
qed

section \<open>Adding and removing\<close>

text \<open>
  C7. With \<^verbatim>\<open>remove_first\<close> set, \<^verbatim>\<open>modify_repo\<close> runs the removal command first,
  whatever the other arguments are; the add command follows it, and only after the removal
  has exited with code 0. The two commands are different, so the add is never the first.
  The repository URI is a string here, as it is for every call from \<^verbatim>\<open>main\<close>.
\<close>

theorem C7_remove_before_add:
  assumes "ar_cmd (PyStr s) alias d g f = Inr c"
  shows "snd (modify_repo z tr (PyStr s) alias d g f True) =
           (if fst (z tr (rr_cmd (PyStr s) alias)) = 0
            then tr @ [rr_cmd (PyStr s) alias, c]
            else tr @ [rr_cmd (PyStr s) alias]) \<and>
         c \<noteq> rr_cmd (PyStr s) alias"
proof -
  have "c ! 1 = PyStr ''ar''" using assms by (auto simp: ar_cmd_str)
  moreover have "rr_cmd (PyStr s) alias ! 1 = PyStr ''rr''" by (simp add: rr_cmd_def)
  ultimately have "c \<noteq> rr_cmd (PyStr s) alias" by auto
  moreover have "snd (modify_repo z tr (PyStr s) alias d g f True) =
           (if fst (z tr (rr_cmd (PyStr s) alias)) = 0
            then tr @ [rr_cmd (PyStr s) alias, c]
            else tr @ [rr_cmd (PyStr s) alias])"
    using assms by (rule modify_repo_remove_first)
  ultimately show ?thesis by simp
qed

theorem C7_remove_before_add_witness:
  "ar_cmd (PyStr ''http://other'') (PyStr ''locked'') PyNone False True =
     Inr (map PyStr [''/usr/bin/zypper'', ''ar'', ''--check'', ''-t'', ''plaindir'', ''--refresh'',
            ''http://other'', ''locked'']) \<and>
   snd (modify_repo ex_zypper [] (PyStr ''http://other'') (PyStr ''locked'') PyNone False True True) =
     [rr_cmd (PyStr ''http://other'') (PyStr ''locked'')] \<and>
   snd (modify_repo ex_zypper [] (PyStr ''http://other'') (PyStr ''nvidia-repo'') PyNone False True True) =
     [rr_cmd (PyStr ''http://other'') (PyStr ''nvidia-repo''),
      map PyStr [''/usr/bin/zypper'', ''ar'', ''--check'', ''-t'', ''plaindir'', ''--refresh'',
            ''http://other'', ''nvidia-repo'']]"
proof -
  have a: "ar_cmd (PyStr ''http://other'') (PyStr ''locked'') PyNone False True =
     Inr (map PyStr [''/usr/bin/zypper'', ''ar'', ''--check'', ''-t'', ''plaindir'', ''--refresh'',
            ''http://other'', ''locked''])"
    by (simp add: ar_cmd_def endswith_def)
  have b: "ar_cmd (PyStr ''http://other'') (PyStr ''nvidia-repo'') PyNone False True =
     Inr (map PyStr [''/usr/bin/zypper'', ''ar'', ''--check'', ''-t'', ''plaindir'', ''--refresh'',
            ''http://other'', ''nvidia-repo''])"
    by (simp add: ar_cmd_def endswith_def)
  show ?thesis
    using a C7_remove_before_add [OF a, of ex_zypper "[]"] C7_remove_before_add [OF b, of ex_zypper "[]"]
    by (simp add: ex_defs)
qed

text \<open>
  C8. The add command is \<^verbatim>\<open>zypper ar --check -t plaindir\<close>, the options, the URI and,
  exactly when the URI does not end in \<open>.repo\<close>, the alias as last argument. It is this
  vector that \<^verbatim>\<open>modify_repo\<close> runs: alone when nothing is removed first, with its exit
  code deciding the result, and after a successful removal otherwise.
\<close>

theorem C8_alias_argument:
  "\<exists>opts c.
     opts = map PyStr [''/usr/bin/zypper'', ''ar'', ''--check'', ''-t'', ''plaindir'']
            @ (if truthy d then [PyStr ''--name'', d] else [])
            @ (if g then [PyStr ''--no-gpgcheck''] else [])
            @ (if f then [PyStr ''--refresh''] else []) \<and>
     c = opts @ [PyStr s] @ (if endswith s ''.repo'' then [] else [alias]) \<and>
     ar_cmd (PyStr s) alias d g f = Inr c \<and>
     modify_repo z tr (PyStr s) alias d g f False =
       (case z tr c of (rc, out, err) \<Rightarrow>
          if rc = 0 then Inr True else Inl (Add_failed (if err \<noteq> [] then err else out)),
        tr @ [c]) \<and>
     snd (modify_repo z tr (PyStr s) alias d g f True) =
       (if fst (z tr (rr_cmd (PyStr s) alias)) = 0
        then tr @ [rr_cmd (PyStr s) alias, c]
        else tr @ [rr_cmd (PyStr s) alias])"
proof -
  let ?opts = "map PyStr [''/usr/bin/zypper'', ''ar'', ''--check'', ''-t'', ''plaindir'']
            @ (if truthy d then [PyStr ''--name'', d] else [])
            @ (if g then [PyStr ''--no-gpgcheck''] else [])
            @ (if f then [PyStr ''--refresh''] else [])"
  let ?c = "?opts @ [PyStr s] @ (if endswith s ''.repo'' then [] else [alias])"
  have a: "ar_cmd (PyStr s) alias d g f = Inr ?c" by (simp add: ar_cmd_str)
  have b: "modify_repo z tr (PyStr s) alias d g f False =
       (case z tr ?c of (rc, out, err) \<Rightarrow>
          if rc = 0 then Inr True else Inl (Add_failed (if err \<noteq> [] then err else out)),
        tr @ [?c])"
    using a by (rule modify_repo_add)
  have c: "snd (modify_repo z tr (PyStr s) alias d g f True) =
       (if fst (z tr (rr_cmd (PyStr s) alias)) = 0
        then tr @ [rr_cmd (PyStr s) alias, ?c]
        else tr @ [rr_cmd (PyStr s) alias])"
    using a by (rule modify_repo_remove_first)
  from a b c show ?thesis by blast
qed

theorem C8_alias_argument_witness:
  "modify_repo ex_zypper [] (PyStr python_url) PyNone PyNone False True False =
     (Inr True,
      [map PyStr [''/usr/bin/zypper'', ''ar'', ''--check'', ''-t'', ''plaindir'', ''--refresh'',
            python_url]]) \<and>
   modify_repo ex_zypper [] (PyStr nvidia_url) (PyStr ''nvidia-repo'') PyNone False True False =
     (Inr True,
      [map PyStr [''/usr/bin/zypper'', ''ar'', ''--check'', ''-t'', ''plaindir'', ''--refresh'',
            nvidia_url, ''nvidia-repo'']])"
  using C8_alias_argument [of PyNone False True python_url PyNone ex_zypper "[]"]
    C8_alias_argument [of PyNone False True nvidia_url "PyStr ''nvidia-repo''" ex_zypper "[]"]
  by (simp add: endswith_def python_url_def nvidia_url_def ex_zypper_def lr_cmd_def rr_cmd_def)

text \<open>
  C9. \<^verbatim>\<open>remove_repo\<close> runs \<^verbatim>\<open>zypper rr\<close> with the alias when the alias is non-empty
  and with the URI otherwise. It returns \<open>True\<close> exactly when the command exits
  with code 0; any other exit code is the failure raised by the strict check of
  \<^verbatim>\<open>run_command\<close>.
\<close>

theorem C9_remove_repo:
  assumes "z tr (rr_cmd repo alias) = (rc, out, err)"
  shows "rr_cmd repo alias =
           [PyStr ''/usr/bin/zypper'', PyStr ''rr'', if truthy alias then alias else repo] \<and>
         snd (remove_repo z tr repo alias) = tr @ [rr_cmd repo alias] \<and>
         (fst (remove_repo z tr repo alias) = Inr True \<longleftrightarrow> rc = 0) \<and>
         (rc \<noteq> 0 \<longrightarrow>
            fst (remove_repo z tr repo alias) = Inl (Check_rc_failed (rr_cmd repo alias) rc out err))"
  using assms by (simp add: remove_repo_result rr_cmd_def)

theorem C9_remove_repo_witness:
  "ex_zypper [] (rr_cmd PyNone (PyStr ''locked'')) = (7, [], ''System management is locked.'') \<and>
   rr_cmd PyNone (PyStr ''locked'') = [PyStr ''/usr/bin/zypper'', PyStr ''rr'', PyStr ''locked''] \<and>
   remove_repo ex_zypper [] PyNone (PyStr ''locked'') =
     (Inl (Check_rc_failed (rr_cmd PyNone (PyStr ''locked'')) 7 [] ''System management is locked.''),
      [rr_cmd PyNone (PyStr ''locked'')])"
proof -
  have h: "ex_zypper [] (rr_cmd PyNone (PyStr ''locked'')) = (7, [], ''System management is locked.'')"
    by (simp add: ex_defs)
  from C9_remove_repo [of ex_zypper "[]" PyNone "PyStr ''locked''" 7 "[]"
      "''System management is locked.''", OF h] h
  show ?thesis
    by (simp add: prod_eq_iff)
qed

section \<open>Expected values that are None\<close>

text \<open>
  C10. A key passed for comparison with value \<^verbatim>\<open>None\<close> is compared as the empty
  string: when the single entry returned by the listing has a value for that key that is
  non-empty after stripping trailing slashes, \<^verbatim>\<open>repo_changes\<close> holds and
  \<^verbatim>\<open>repo_exists\<close> returns exists and differs. A run of \<^verbatim>\<open>main\<close> with desired state
  present then runs the listing and the removal (and then the add), every time.
\<close>

theorem C10_none_differs:
  assumes "map_of kwargs k = Some PyNone" and "(k, v) \<in> set e"
    and "rstrip CHR ''/'' (or_empty v) \<noteq> []"
    and "truthy (ident_of kwargs)"
    and "fst (parse_repos z parseXML tr (or_empty (ident_of kwargs))) = Inr [e]"
  shows "repo_changes e kwargs \<and>
         fst (repo_exists z parseXML tr kwargs) = Inr (True, True) \<and>
         (\<forall>p. p_state p = Present \<and> check_params p = None \<and> kwargs_of p = kwargs \<and> tr = [] \<longrightarrow>
            take 2 (snd (main z parseXML p)) =
              [lr_cmd (or_empty (ident_of kwargs)), rr_cmd (p_repo p) (p_name p)])"
proof -
  let ?lr = "lr_cmd (or_empty (ident_of kwargs))"
  have ch: "repo_changes e kwargs" using assms(1-3) by (rule repo_changes_none)
  with repo_exists_found [OF assms(4,5)]
  have re: "repo_exists z parseXML tr kwargs = (Inr (True, True), tr @ [?lr])" by simp
  have "take 2 (snd (main z parseXML p)) = [?lr, rr_cmd (p_repo p) (p_name p)]"
    if p: "p_state p = Present \<and> check_params p = None \<and> kwargs_of p = kwargs \<and> tr = []" for p
  proof -
    from p have "truthy (p_repo p)" by (auto simp: check_params_def Let_def split: if_splits)
    then obtain s where s: "p_repo p = PyStr s" by (cases "p_repo p") auto
    obtain c where c: "ar_cmd (PyStr s) (p_name p) (p_description p)
        (p_disable_gpg_check p) (p_refresh p) = Inr c"
      by (simp add: ar_cmd_str)
    obtain r t where mr: "modify_repo z [?lr] (PyStr s) (p_name p) (p_description p)
              (p_disable_gpg_check p) (p_refresh p) True = (r, t)"
      by (cases "modify_repo z [?lr] (PyStr s) (p_name p) (p_description p)
              (p_disable_gpg_check p) (p_refresh p) True")
    with modify_repo_remove_first [OF c, of z "[?lr]"]
    have "take 2 t = [?lr, rr_cmd (PyStr s) (p_name p)]"
      by simp
    with p re s mr show ?thesis
      by (cases r) (simp_all add: main_unfold)
  qed
  with ch re show ?thesis by simp
qed

theorem C10_none_differs_witness:
  "check_params (ex_params_noname python_url Present) = None \<and>
   kwargs_of (ex_params_noname python_url Present) =
     [(''url'', PyStr python_url), (''alias'', PyNone)] \<and>
   fst (parse_repos ex_zypper ex_parseXML [] python_url) = Inr [ex_python] \<and>
   repo_changes ex_python [(''url'', PyStr python_url), (''alias'', PyNone)] \<and>
   take 2 (snd (main ex_zypper ex_parseXML (ex_params_noname python_url Present))) =
     [lr_cmd python_url, rr_cmd (PyStr python_url) PyNone]"
proof -
  let ?p = "ex_params_noname python_url Present"
  let ?kw = "[(''url'', PyStr python_url), (''alias'', PyNone)]"
  have kw: "kwargs_of ?p = ?kw"
    by (simp add: kwargs_of_def ex_params_noname_def python_url_def endswith_def)
  have k: "ident_of ?kw = PyStr python_url"
    by (simp add: ident_of_def por_def dict_get_def python_url_def)
  have h1: "map_of ?kw ''alias'' = Some PyNone" by simp
  have h2: "(''alias'', PyStr ''python'') \<in> set ex_python" by (simp add: ex_python_def)
  have h3: "rstrip CHR ''/'' (or_empty (PyStr ''python'')) \<noteq> []" by (simp add: rstrip_def)
  have h4: "truthy (ident_of ?kw)" unfolding k by (simp add: python_url_def)
  have q: "fst (parse_repos ex_zypper ex_parseXML [] python_url) = Inr [ex_python]"
    by (simp add: eval_defs ex_defs ex_python_def)
  then have h5: "fst (parse_repos ex_zypper ex_parseXML [] (or_empty (ident_of ?kw))) = Inr [ex_python]"
    by (simp add: k)
  have c: "check_params ?p = None" by (simp add: eval_defs ex_defs)
  have s: "p_state ?p = Present" "p_repo ?p = PyStr python_url" "p_name ?p = PyNone"
    by (simp_all add: ex_params_noname_def)
  from C10_none_differs [OF h1 h2 h3 h4 h5, unfolded k] c kw s
  have "repo_changes ex_python ?kw \<and>
        take 2 (snd (main ex_zypper ex_parseXML ?p)) =
          [lr_cmd python_url, rr_cmd (PyStr python_url) PyNone]"
    by auto
  with c kw q show ?thesis by simp
qed

end
